theory Spec2Isabelle
  imports Complex_Main "HOL-Library.Word"
begin

section \<open>Amounts\<close>

text \<open>
  \<^verbatim>\<open>Amount\<close> is a \<^verbatim>\<open>double\<close>. A finite value is an exact real number here (rounding,
  overflow and the sign of zero are not modelled); the two infinities and NaN are values of
  their own. Addition, negation, subtraction, multiplication and the comparisons treat them
  as IEEE 754 does: NaN propagates through arithmetic, infinities of opposite sign add to
  NaN, zero times infinity is NaN, and every comparison with NaN is false.
\<close>

datatype Amount = Fin real | PInf | MInf | NaN

instantiation Amount :: "{zero, plus, uminus, minus, times, ord}"
begin

definition zero_Amount :: Amount where
  "zero_Amount = Fin 0"

fun plus_Amount :: "Amount \<Rightarrow> Amount \<Rightarrow> Amount" where
  "plus_Amount NaN b = NaN"
| "plus_Amount a NaN = NaN"
| "plus_Amount (Fin x) (Fin y) = Fin (x + y)"
| "plus_Amount PInf MInf = NaN"
| "plus_Amount MInf PInf = NaN"
| "plus_Amount PInf b = PInf"
| "plus_Amount a PInf = PInf"
| "plus_Amount MInf b = MInf"
| "plus_Amount a MInf = MInf"

fun uminus_Amount :: "Amount \<Rightarrow> Amount" where
  "uminus_Amount (Fin x) = Fin (- x)"
| "uminus_Amount PInf = MInf"
| "uminus_Amount MInf = PInf"
| "uminus_Amount NaN = NaN"

definition minus_Amount :: "Amount \<Rightarrow> Amount \<Rightarrow> Amount" where
  "minus_Amount a b = a + (- b)"

fun times_Amount :: "Amount \<Rightarrow> Amount \<Rightarrow> Amount" where
  "times_Amount NaN b = NaN"
| "times_Amount a NaN = NaN"
| "times_Amount (Fin x) (Fin y) = Fin (x * y)"
| "times_Amount (Fin x) PInf = (if 0 < x then PInf else if x < 0 then MInf else NaN)"
| "times_Amount (Fin x) MInf = (if 0 < x then MInf else if x < 0 then PInf else NaN)"
| "times_Amount PInf (Fin y) = (if 0 < y then PInf else if y < 0 then MInf else NaN)"
| "times_Amount MInf (Fin y) = (if 0 < y then MInf else if y < 0 then PInf else NaN)"
| "times_Amount PInf PInf = PInf"
| "times_Amount MInf MInf = PInf"
| "times_Amount PInf MInf = MInf"
| "times_Amount MInf PInf = MInf"

fun less_Amount :: "Amount \<Rightarrow> Amount \<Rightarrow> bool" where
  "less_Amount NaN b = False"
| "less_Amount a NaN = False"
| "less_Amount (Fin x) (Fin y) = (x < y)"
| "less_Amount a MInf = False"
| "less_Amount PInf b = False"
| "less_Amount MInf b = True"
| "less_Amount a PInf = True"

fun less_eq_Amount :: "Amount \<Rightarrow> Amount \<Rightarrow> bool" where
  "less_eq_Amount NaN b = False"
| "less_eq_Amount a NaN = False"
| "less_eq_Amount (Fin x) (Fin y) = (x \<le> y)"
| "less_eq_Amount MInf b = True"
| "less_eq_Amount a PInf = True"
| "less_eq_Amount a MInf = False"
| "less_eq_Amount PInf b = False"

instance ..

end

instance Amount :: comm_monoid_add
proof (standard, goal_cases)
  case (1 p q r)
  show ?case by (cases p; cases q; cases r; simp)
next
  case (2 p q)
  show ?case by (cases p; cases q; simp)
next
  case (3 p)
  show ?case by (cases p; simp add: zero_Amount_def)
qed

text \<open>\<^verbatim>\<open>std::min(a, b)\<close> is \<^verbatim>\<open>(b < a) ? b : a\<close>: it returns \<open>a\<close> when either is NaN.\<close>

definition stdMin :: "Amount \<Rightarrow> Amount \<Rightarrow> Amount" where
  "stdMin a b = (if b < a then b else a)"


section \<open>Data model of the route simulation\<close>

text \<open>
  The simulation of \<^verbatim>\<open>main.cpp\<close>: chains with two regenerating pools, a strategy
  balance and a ledger of locked amounts; a strategy proposes bridge and execute actions
  once per tick. \<^verbatim>\<open>Ticks\<close> is \<^verbatim>\<open>uint64_t\<close>. Console output is not part of the state; of
  all the messages only the one printed for each action is kept, as the outcome of that
  action.
\<close>

type_synonym Ticks = "64 word"

record ChainParams =
  orderflowRegenPerTick :: Amount
  outflowRegenPerTick :: Amount
  gasCost :: Amount
  executionSurplus :: Amount
  bridgingTime :: Ticks
  inventoryLockTime :: Ticks

type_synonym LockedAmounts = "(Amount \<times> Ticks) list"

record Chain =
  chainName :: string
  currentOrderflowBal :: Amount
  currentOutflowBal :: Amount
  currentStrategyBal :: Amount
  maxOrderflowBal :: Amount
  maxOutflowBal :: Amount
  maxStrategyBal :: Amount
  params :: ChainParams
  balance :: Amount
  lockedBalances :: LockedAmounts

type_synonym Chains = "Chain list"

text \<open>The constructor of \<^verbatim>\<open>Chain\<close>: the three maxima are 1.5 times the initial values.\<close>

definition mkChain :: "string \<Rightarrow> ChainParams \<Rightarrow> Amount \<Rightarrow> Amount \<Rightarrow> Amount \<Rightarrow> Chain" where
  "mkChain name rp initialOrderflowBal initialOutflowBal startingStrategyBal =
     \<lparr> chainName = name,
       currentOrderflowBal = initialOrderflowBal,
       currentOutflowBal = initialOutflowBal,
       currentStrategyBal = startingStrategyBal,
       maxOrderflowBal = initialOrderflowBal * Fin 1.5,
       maxOutflowBal = initialOutflowBal * Fin 1.5,
       maxStrategyBal = startingStrategyBal * Fin 1.5,
       params = rp,
       balance = startingStrategyBal,
       lockedBalances = [] \<rparr>"

datatype ActionType = bridge | execute

record Action =
  type :: ActionType
  source :: string
  destination :: string
  amount :: Amount

type_synonym Actions = "Action list"

text \<open>
  \<^verbatim>\<open>IStrategy::onTickRecalc\<close> receives the chains read-only and fills the action list. A
  strategy object may keep state of its own (\<open>'s\<close>), and a call may fail to return
  (\<open>None\<close>).
\<close>

type_synonym 's IStrategy = "'s \<Rightarrow> Chains \<Rightarrow> (Actions \<times> 's) option"

section \<open>The engine\<close>

text \<open>\<^verbatim>\<open>Simulation::initRoutes\<close>: the three configured chains.\<close>

definition chainA :: Chain where
  "chainA = mkChain ''A''
     \<lparr> orderflowRegenPerTick = Fin 0.64, outflowRegenPerTick = Fin 0.24, gasCost = Fin 0.0001,
       executionSurplus = Fin 1.0005, bridgingTime = 4, inventoryLockTime = 4 \<rparr>
     (Fin 10) (Fin 30) (Fin 10)"

definition chainB :: Chain where
  "chainB = mkChain ''B''
     \<lparr> orderflowRegenPerTick = Fin 0.38, outflowRegenPerTick = Fin 0.4, gasCost = Fin 0.0005,
       executionSurplus = Fin 1.0003, bridgingTime = 6, inventoryLockTime = 6 \<rparr>
     (Fin 30) (Fin 10) (Fin 0)"

definition chainC :: Chain where
  "chainC = mkChain ''C''
     \<lparr> orderflowRegenPerTick = Fin 0.24, outflowRegenPerTick = Fin 0.61, gasCost = Fin 0.0008,
       executionSurplus = Fin 1.0009, bridgingTime = 4, inventoryLockTime = 8 \<rparr>
     (Fin 40) (Fin 30) (Fin 0)"

definition initRoutes :: Chains where
  "initRoutes = [chainA, chainB, chainC]"

text \<open>
  The \<^verbatim>\<open>erase(remove_if(...))\<close> pass over one chain's \<^verbatim>\<open>lockedBalances\<close>. The predicate
  is applied to the entries in order; it decrements a positive countdown, and an entry whose
  countdown is then zero is added to the chain's \<^verbatim>\<open>balance\<close> and removed. Entries that stay
  keep their decremented countdown.
\<close>

fun ageLocked :: "LockedAmounts \<Rightarrow> Amount \<Rightarrow> LockedAmounts \<times> Amount" where
  "ageLocked [] bal = ([], bal)"
| "ageLocked ((b, ticks) # rest) bal =
     (let ticks' = (if 0 < ticks then ticks - 1 else ticks) in
      if ticks' = 0 then ageLocked rest (bal + b)
      else (let (kept, bal') = ageLocked rest bal in ((b, ticks') # kept, bal')))"

text \<open>The first loop of \<^verbatim>\<open>tick\<close>, for one chain: both pools regenerate, clamped, then the ledger ages.\<close>

definition tickChain :: "Chain \<Rightarrow> Chain" where
  "tickChain chain =
     (let c1 = chain\<lparr> currentOrderflowBal :=
                 stdMin (currentOrderflowBal chain + orderflowRegenPerTick (params chain))
                     (maxOrderflowBal chain) \<rparr>;
          c2 = c1\<lparr> currentOutflowBal :=
                 stdMin (currentOutflowBal c1 + outflowRegenPerTick (params c1))
                     (maxOutflowBal c1) \<rparr>;
          (kept, bal) = ageLocked (lockedBalances c2) (balance c2)
      in c2\<lparr> balance := bal, lockedBalances := kept \<rparr>)"

text \<open>
  The lookup loop of an action: every chain is visited; a chain named like the source sets
  \<^verbatim>\<open>pSource\<close>, otherwise one named like the destination sets \<^verbatim>\<open>pDestination\<close>. Pointers
  into \<^verbatim>\<open>m_chains\<close> are indices; \<open>None\<close> is the null pointer.
\<close>

fun findChains :: "Action \<Rightarrow> Chains \<Rightarrow> nat \<Rightarrow> nat option \<times> nat option \<Rightarrow> nat option \<times> nat option" where
  "findChains action [] i (pSource, pDestination) = (pSource, pDestination)"
| "findChains action (chain # rest) i (pSource, pDestination) =
     findChains action rest (Suc i)
       (if chainName chain = source action then (Some i, pDestination)
        else if chainName chain = destination action then (pSource, Some i)
        else (pSource, pDestination))"

text \<open>What the engine prints for an action: one of seven failures, or one of two successes.\<close>

datatype Outcome =
    SameChain
  | ChainNotFound
  | InsufficientFunds
  | BridgeDestinationInsufficient
  | BridgeGasInsufficient
  | ExecuteDestinationInsufficient
  | ExecuteGasInsufficient
  | Bridged string string Amount Ticks
  | Executed string string Amount Ticks

text \<open>The body of the action loop of \<^verbatim>\<open>tick\<close>, for one action; every \<^verbatim>\<open>continue\<close> is a branch.\<close>

definition execAction :: "Action \<Rightarrow> Chains \<Rightarrow> Outcome \<times> Chains" where
  "execAction action m_chains =
     (if source action = destination action then (SameChain, m_chains)
      else case findChains action m_chains 0 (None, None) of
        (None, _) \<Rightarrow> (ChainNotFound, m_chains)
      | (Some s, None) \<Rightarrow> (ChainNotFound, m_chains)
      | (Some s, Some d) \<Rightarrow>
          if balance (m_chains ! s) < amount action then (InsufficientFunds, m_chains)
          else (case type action of
            bridge \<Rightarrow>
              if currentOutflowBal (m_chains ! d) < amount action
                then (BridgeDestinationInsufficient, m_chains)
              else if amount action < gasCost (params (m_chains ! s))
                then (BridgeGasInsufficient, m_chains)
              else
                (let bridgedAmount = amount action - gasCost (params (m_chains ! s));
                     m1 = m_chains[d := (m_chains ! d)\<lparr> currentOutflowBal :=
                            currentOutflowBal (m_chains ! d) - amount action \<rparr>];
                     m2 = m1[s := (m1 ! s)\<lparr> currentOutflowBal :=
                            currentOutflowBal (m1 ! s) + amount action \<rparr>];
                     m3 = m2[s := (m2 ! s)\<lparr> balance := balance (m2 ! s) - amount action \<rparr>];
                     m4 = m3[d := (m3 ! d)\<lparr> lockedBalances := lockedBalances (m3 ! d) @
                            [(bridgedAmount, bridgingTime (params (m3 ! s)))] \<rparr>]
                 in (Bridged (chainName (m4 ! s)) (chainName (m4 ! d)) bridgedAmount
                       (bridgingTime (params (m4 ! s))), m4))
          | execute \<Rightarrow>
              if currentOrderflowBal (m_chains ! d) < amount action
                then (ExecuteDestinationInsufficient, m_chains)
              else if amount action < gasCost (params (m_chains ! s))
                then (ExecuteGasInsufficient, m_chains)
              else
                (let amountAfterGasCost = amount action - gasCost (params (m_chains ! s));
                     creditedAmount = amountAfterGasCost * executionSurplus (params (m_chains ! s));
                     m1 = m_chains[d := (m_chains ! d)\<lparr> currentOrderflowBal :=
                            currentOrderflowBal (m_chains ! d) - amount action \<rparr>];
                     m2 = m1[s := (m1 ! s)\<lparr> balance := balance (m1 ! s) - amount action \<rparr>];
                     m3 = m2[d := (m2 ! d)\<lparr> lockedBalances := lockedBalances (m2 ! d) @
                            [(creditedAmount, inventoryLockTime (params (m2 ! s)))] \<rparr>]
                 in (Executed (chainName (m3 ! s)) (chainName (m3 ! d)) creditedAmount
                       (inventoryLockTime (params (m3 ! s))), m3))))"

text \<open>The action loop: each action runs on the chains as the previous one left them.\<close>

fun execActions :: "Actions \<Rightarrow> Chains \<Rightarrow> Outcome list \<times> Chains" where
  "execActions [] m_chains = ([], m_chains)"
| "execActions (action # rest) m_chains =
     (let (out, m_chains') = execAction action m_chains;
          (outs, m_chains'') = execActions rest m_chains'
      in (out # outs, m_chains''))"

text \<open>
  \<^verbatim>\<open>Simulation::tick\<close>: the first loop over all chains, one call of the strategy on the
  result, then the action loop. The state is the strategy's own state and \<^verbatim>\<open>m_chains\<close>.
\<close>

definition tick :: "'s IStrategy \<Rightarrow> 's \<times> Chains \<Rightarrow> ('s \<times> Chains) option" where
  "tick strategy state =
     (let m_chains = map tickChain (snd state) in
      case strategy (fst state) m_chains of
        None \<Rightarrow> None
      | Some (actions, st') \<Rightarrow> Some (st', snd (execActions actions m_chains)))"

text \<open>\<^verbatim>\<open>Simulation::simulate\<close>: \<open>iterations\<close> ticks, one after the other.\<close>

fun simulate :: "'s IStrategy \<Rightarrow> nat \<Rightarrow> 's \<times> Chains \<Rightarrow> ('s \<times> Chains) option" where
  "simulate strategy 0 state = Some state"
| "simulate strategy (Suc n) state =
     (case tick strategy state of None \<Rightarrow> None | Some state' \<Rightarrow> simulate strategy n state')"

text \<open>
  The strategy shipped with the engine. \<^verbatim>\<open>getChain\<close> returns the first chain of the name or
  a null pointer; \<^verbatim>\<open>onTickRecalc\<close> dereferences chains A and B unchecked, which is the
  \<open>None\<close> result here.
\<close>

definition getChain :: "Chains \<Rightarrow> string \<Rightarrow> Chain option" where
  "getChain m_chains name = find (\<lambda>chain. chainName chain = name) m_chains"

definition onTickRecalc :: "Chains \<Rightarrow> Actions \<Rightarrow> Actions option" where
  "onTickRecalc m_chains actions =
     (case getChain m_chains ''A'' of None \<Rightarrow> None | Some pChainA \<Rightarrow>
      (case getChain m_chains ''B'' of None \<Rightarrow> None | Some pChainB \<Rightarrow>
        (let actions1 =
               (if Fin 2 < balance pChainA \<and> Fin 2 < currentOutflowBal pChainB
                then actions @ [\<lparr> type = bridge, source = ''A'', destination = ''B'', amount = Fin 2 \<rparr>]
                else actions);
             actions2 =
               (if Fin 5 < balance pChainB \<and> Fin 5 < currentOrderflowBal pChainB
                then actions1 @ [\<lparr> type = execute, source = ''B'', destination = ''A'', amount = Fin 5 \<rparr>]
                else actions1)
         in Some actions2)))"

definition Strategy :: "unit IStrategy" where
  "Strategy st m_chains = map_option (\<lambda>actions. (actions, st)) (onTickRecalc m_chains [])"

section \<open>The specification's reading of validation\<close>

text \<open>
  The specification resolves a name to "the" chain of that name; names are unique in every
  configuration. Where a name occurs twice, the engine's lookup loop keeps the last chain of
  the name, and so does this reading.
\<close>

definition resolveChain :: "Chains \<Rightarrow> string \<Rightarrow> Chain option" where
  "resolveChain cs name = find (\<lambda>c. chainName c = name) (rev cs)"

text \<open>The five failure reasons of the specification's error taxonomy.\<close>

datatype Failure =
    SameChainError
  | UnknownChainError
  | InsufficientSourceFunds
  | InsufficientDestinationLiquidity
  | BelowGasCost

text \<open>
  The validation steps of the specification, in its order: same chain, chain resolution,
  solvency of the source, liquidity of the destination's pool (the outflow pool for a bridge,
  the orderflow pool for an execute), gas coverage. The result is the first check that fails.
\<close>

definition firstFailure :: "Action \<Rightarrow> Chains \<Rightarrow> Failure option" where
  "firstFailure a cs =
     (if source a = destination a then Some SameChainError
      else case (resolveChain cs (source a), resolveChain cs (destination a)) of
        (Some src, Some dst) \<Rightarrow>
          if balance src < amount a then Some InsufficientSourceFunds
          else if \<not> amount a \<le> (case type a of bridge \<Rightarrow> currentOutflowBal dst
                                     | execute \<Rightarrow> currentOrderflowBal dst)
            then Some InsufficientDestinationLiquidity
          else if \<not> gasCost (params src) \<le> amount a then Some BelowGasCost
          else None
      | _ \<Rightarrow> Some UnknownChainError)"

text \<open>The failure reason that each printed outcome stands for; an accepted action has none.\<close>

fun rejectionOf :: "Outcome \<Rightarrow> Failure option" where
  "rejectionOf SameChain = Some SameChainError"
| "rejectionOf ChainNotFound = Some UnknownChainError"
| "rejectionOf InsufficientFunds = Some InsufficientSourceFunds"
| "rejectionOf BridgeDestinationInsufficient = Some InsufficientDestinationLiquidity"
| "rejectionOf ExecuteDestinationInsufficient = Some InsufficientDestinationLiquidity"
| "rejectionOf BridgeGasInsufficient = Some BelowGasCost"
| "rejectionOf ExecuteGasInsufficient = Some BelowGasCost"
| "rejectionOf (Bridged s d x t) = None"
| "rejectionOf (Executed s d x t) = None"

section \<open>The specification's reading of a tick\<close>

text \<open>
  The specification's first phase: every chain's two pools grow by their rates and are clamped
  to their maxima. The clamp is the source's \<^verbatim>\<open>std::min\<close>, so that the phases compose to the
  engine's first loop on every value, NaN included.
\<close>

definition regenerate :: "Chain \<Rightarrow> Chain" where
  "regenerate c =
     c\<lparr> currentOrderflowBal :=
          stdMin (currentOrderflowBal c + orderflowRegenPerTick (params c)) (maxOrderflowBal c),
        currentOutflowBal :=
          stdMin (currentOutflowBal c + outflowRegenPerTick (params c)) (maxOutflowBal c) \<rparr>"

text \<open>
  The specification's second phase: every entry's countdown is decremented by one, floored at
  zero; the entries that reach zero are removed and their amounts added to the balance.
\<close>

definition decrementTicks :: "Ticks \<Rightarrow> Ticks" where
  "decrementTicks t = (if t = 0 then 0 else t - 1)"

definition ageAndRelease :: "Chain \<Rightarrow> Chain" where
  "ageAndRelease c =
     (let aged = map (\<lambda>(b, t). (b, decrementTicks t)) (lockedBalances c) in
      c\<lparr> balance := balance c + sum_list (map fst (filter (\<lambda>(b, t). t = 0) aged)),
         lockedBalances := filter (\<lambda>(b, t). t \<noteq> 0) aged \<rparr>)"

section \<open>Notions used to state the properties\<close>


text \<open>
  A tick with the strategy's answer given: the first loop, then the action loop on
  \<open>actions\<close>. A run of ticks is then determined by the lists of actions the strategy
  proposed, one list per tick.
\<close>

definition tickWith :: "Actions \<Rightarrow> Chains \<Rightarrow> Chains" where
  "tickWith actions cs = snd (execActions actions (map tickChain cs))"

fun runTicks :: "Actions list \<Rightarrow> Chains \<Rightarrow> Chains" where
  "runTicks [] cs = cs"
| "runTicks (actions # rest) cs = runTicks rest (tickWith actions cs)"

text \<open>
  \<open>cs0\<close> is \<open>cs\<close> without one ledger entry \<open>e\<close> of chain \<open>j\<close>: the two agree on everything
  else, and the other entries of that ledger are the same and in the same order.
\<close>

definition withoutEntry :: "nat \<Rightarrow> Amount \<times> Ticks \<Rightarrow> Chains \<Rightarrow> Chains \<Rightarrow> bool" where
  "withoutEntry j e cs cs0 \<longleftrightarrow>
     j < length cs \<and>
     (\<exists>L R. lockedBalances (cs ! j) = L @ e # R \<and>
            cs0 = cs[j := (cs ! j)\<lparr> lockedBalances := L @ R \<rparr>])"



section \<open>Facts about amounts\<close>


lemma Amount_less_iff_not_le:
  "a \<noteq> NaN \<Longrightarrow> b \<noteq> NaN \<Longrightarrow> (a < b) = (\<not> b \<le> (a :: Amount))"
  by (cases a; cases b) auto


lemma Fin_minus [simp]: "Fin x - Fin y = Fin (x - y)"
  by (simp add: minus_Amount_def)

lemma stdMin_Fin [simp]: "stdMin (Fin x) (Fin y) = Fin (min x y)"
  by (auto simp: stdMin_def)

lemma Amount_add_zero [simp]: "(a :: Amount) + Fin 0 = a" "Fin 0 + a = a"
  by (cases a; simp)+

section \<open>Chain lookup\<close>

lemma findChains_snoc:
  "findChains a (cs @ [c]) i acc =
     (let (p, q) = findChains a cs i acc in
      if chainName c = source a then (Some (i + length cs), q)
      else if chainName c = destination a then (p, Some (i + length cs))
      else (p, q))"
proof (induction cs arbitrary: i acc)
  case Nil
  then show ?case by (cases acc) simp
next
  case (Cons x xs)
  then show ?case by (cases acc) (auto split: prod.splits)
qed

lemma findChains_resolveChain:
  assumes "source a \<noteq> destination a"
  shows "(case fst (findChains a cs 0 (None, None)) of
            None \<Rightarrow> resolveChain cs (source a) = None
          | Some s \<Rightarrow> s < length cs \<and> resolveChain cs (source a) = Some (cs ! s)) \<and>
         (case snd (findChains a cs 0 (None, None)) of
            None \<Rightarrow> resolveChain cs (destination a) = None
          | Some d \<Rightarrow> d < length cs \<and> resolveChain cs (destination a) = Some (cs ! d))"
proof (induction cs rule: rev_induct)
  case Nil
  show ?case by (simp add: resolveChain_def)
next
  case (snoc c cs)
  obtain p q where pq: "findChains a cs 0 (None, None) = (p, q)"
    by (cases "findChains a cs 0 (None, None)")
  from snoc pq assms show ?case
    by (auto simp: findChains_snoc resolveChain_def nth_append split: option.splits)
qed

lemma findChains_names:
  "(case fst (findChains a cs 0 (None, None)) of
      None \<Rightarrow> True
    | Some s \<Rightarrow> s < length cs \<and> chainName (cs ! s) = source a) \<and>
   (case snd (findChains a cs 0 (None, None)) of
      None \<Rightarrow> True
    | Some d \<Rightarrow> d < length cs \<and> chainName (cs ! d) = destination a
                \<and> chainName (cs ! d) \<noteq> source a)"
proof (induction cs rule: rev_induct)
  case Nil
  show ?case by simp
next
  case (snoc c cs)
  obtain p q where pq: "findChains a cs 0 (None, None) = (p, q)"
    by (cases "findChains a cs 0 (None, None)")
  from snoc pq show ?case
    by (auto simp: findChains_snoc nth_append split: option.splits)
qed

lemma findChains_found:
  assumes "findChains a cs 0 (None, None) = (Some s, Some d)"
  shows "s < length cs" and "d < length cs" and "chainName (cs ! s) = source a"
    and "chainName (cs ! d) = destination a" and "s \<noteq> d"
  using findChains_names [where a = a and cs = cs] assms by auto

lemma execAction_alt:
  "execAction a cs =
     (if source a = destination a then (SameChain, cs)
      else case findChains a cs 0 (None, None) of
        (Some s, Some d) \<Rightarrow>
          if balance (cs ! s) < amount a then (InsufficientFunds, cs)
          else (case type a of
            bridge \<Rightarrow>
              if currentOutflowBal (cs ! d) < amount a then (BridgeDestinationInsufficient, cs)
              else if amount a < gasCost (params (cs ! s)) then (BridgeGasInsufficient, cs)
              else (Bridged (source a) (destination a) (amount a - gasCost (params (cs ! s)))
                      (bridgingTime (params (cs ! s))),
                    cs[d := (cs ! d)\<lparr> currentOutflowBal := currentOutflowBal (cs ! d) - amount a,
                                      lockedBalances := lockedBalances (cs ! d) @
                                        [(amount a - gasCost (params (cs ! s)),
                                          bridgingTime (params (cs ! s)))] \<rparr>,
                       s := (cs ! s)\<lparr> currentOutflowBal := currentOutflowBal (cs ! s) + amount a,
                                      balance := balance (cs ! s) - amount a \<rparr>])
          | execute \<Rightarrow>
              if currentOrderflowBal (cs ! d) < amount a then (ExecuteDestinationInsufficient, cs)
              else if amount a < gasCost (params (cs ! s)) then (ExecuteGasInsufficient, cs)
              else (Executed (source a) (destination a)
                      ((amount a - gasCost (params (cs ! s))) * executionSurplus (params (cs ! s)))
                      (inventoryLockTime (params (cs ! s))),
                    cs[d := (cs ! d)\<lparr> currentOrderflowBal := currentOrderflowBal (cs ! d) - amount a,
                                      lockedBalances := lockedBalances (cs ! d) @
                                        [((amount a - gasCost (params (cs ! s))) *
                                            executionSurplus (params (cs ! s)),
                                          inventoryLockTime (params (cs ! s)))] \<rparr>,
                       s := (cs ! s)\<lparr> balance := balance (cs ! s) - amount a \<rparr>]))
      | _ \<Rightarrow> (ChainNotFound, cs))"
proof -
  obtain p q where pq: "findChains a cs 0 (None, None) = (p, q)"
    by (cases "findChains a cs 0 (None, None)")
  show ?thesis
  proof (cases "\<exists>s d. p = Some s \<and> q = Some d")
    case False
    with pq show ?thesis
      by (cases p; cases q) (simp_all add: execAction_def)
  next
    case True
    then obtain s d where sd: "p = Some s" "q = Some d" by blast
    note f = findChains_found [OF pq [unfolded sd]]
    show ?thesis
      using pq sd f
      by (cases "type a") (simp_all add: execAction_def Let_def list_update_swap [of s d])
  qed
qed

section \<open>Accepted actions\<close>





section \<open>Rejected actions\<close>

lemma execAction_rejection:
  assumes "amount a \<noteq> NaN"
    and "\<forall>c \<in> set cs. currentOutflowBal c \<noteq> NaN \<and> currentOrderflowBal c \<noteq> NaN \<and>
                       gasCost (params c) \<noteq> NaN"
  shows "rejectionOf (fst (execAction a cs)) = firstFailure a cs"
proof (cases "source a = destination a")
  case True
  then show ?thesis by (simp add: execAction_def firstFailure_def)
next
  case False
  obtain p q where pq: "findChains a cs 0 (None, None) = (p, q)"
    by (cases "findChains a cs 0 (None, None)")
  show ?thesis
  proof (cases "\<exists>s d. p = Some s \<and> q = Some d")
    case no: False
    with findChains_resolveChain [OF False, of cs] pq False show ?thesis
      by (cases p; cases q) (auto simp: execAction_alt firstFailure_def)
  next
    case True
    then obtain s d where sd: "p = Some s" "q = Some d" by blast
    from findChains_resolveChain [OF False, of cs] pq sd
    have r: "s < length cs" "resolveChain cs (source a) = Some (cs ! s)"
      "d < length cs" "resolveChain cs (destination a) = Some (cs ! d)"
      by simp_all
    from r(1,3) assms(2) have n: "currentOutflowBal (cs ! d) \<noteq> NaN"
      "currentOrderflowBal (cs ! d) \<noteq> NaN" "gasCost (params (cs ! s)) \<noteq> NaN"
      by (simp_all add: nth_mem)
    have c: "(currentOutflowBal (cs ! d) < amount a) = (\<not> amount a \<le> currentOutflowBal (cs ! d))"
      "(currentOrderflowBal (cs ! d) < amount a) = (\<not> amount a \<le> currentOrderflowBal (cs ! d))"
      "(amount a < gasCost (params (cs ! s))) = (\<not> gasCost (params (cs ! s)) \<le> amount a)"
      by (rule Amount_less_iff_not_le [OF n(1) assms(1)], rule Amount_less_iff_not_le [OF n(2) assms(1)],
          rule Amount_less_iff_not_le [OF assms(1) n(3)])
    from pq sd r False show ?thesis
      by (cases "type a") (simp_all add: execAction_alt firstFailure_def c)
  qed
qed

lemma execAction_rejected_unchanged:
  "rejectionOf (fst (execAction a cs)) \<noteq> None \<Longrightarrow> snd (execAction a cs) = cs"
  by (auto simp: execAction_def Let_def split: option.splits prod.splits ActionType.splits if_splits)

lemma execActions_Cons:
  "execActions (a # rest) cs =
     (fst (execAction a cs) # fst (execActions rest (snd (execAction a cs))),
      snd (execActions rest (snd (execAction a cs))))"
  by (simp add: case_prod_beta)

lemma execActions_replicate_rejected:
  "snd (execAction a cs) = cs \<Longrightarrow>
   execActions (replicate k a) cs = (replicate k (fst (execAction a cs)), cs)"
  by (induction k) (simp_all add: case_prod_beta)

text \<open>
  C5 fails as stated. The specification requires the destination's pool to be at least the
  amount and the amount to be at least the gas cost; the engine rejects when the pool is
  below the amount or the amount below the gas cost. For a NaN amount every comparison is
  false: the requirement fails, the rejection test does not fire, and the bridge is accepted
  and writes NaN into both outflow pools, the source's balance and the destination's ledger.
  On these chains a further bridge of 2 is accepted as well, against a pool that is NaN.
\<close>

theorem nan_amount_accepted_counterexample:
  "firstFailure \<lparr> type = bridge, source = ''A'', destination = ''B'', amount = NaN \<rparr> initRoutes
     = Some InsufficientDestinationLiquidity \<and>
   execAction \<lparr> type = bridge, source = ''A'', destination = ''B'', amount = NaN \<rparr> initRoutes =
     (Bridged ''A'' ''B'' NaN 4,
      [chainA\<lparr> currentOutflowBal := NaN, balance := NaN \<rparr>,
       chainB\<lparr> currentOutflowBal := NaN, lockedBalances := [(NaN, 4)] \<rparr>,
       chainC]) \<and>
   firstFailure \<lparr> type = bridge, source = ''A'', destination = ''B'', amount = Fin 2 \<rparr>
      [chainA\<lparr> currentOutflowBal := NaN, balance := NaN \<rparr>,
       chainB\<lparr> currentOutflowBal := NaN, lockedBalances := [(NaN, 4)] \<rparr>,
       chainC]
     = Some InsufficientDestinationLiquidity \<and>
   fst (execAction \<lparr> type = bridge, source = ''A'', destination = ''B'', amount = Fin 2 \<rparr>
      [chainA\<lparr> currentOutflowBal := NaN, balance := NaN \<rparr>,
       chainB\<lparr> currentOutflowBal := NaN, lockedBalances := [(NaN, 4)] \<rparr>,
       chainC])
     = Bridged ''A'' ''B'' (Fin 1.9999) 4"
  by (simp add: firstFailure_def resolveChain_def execAction_alt initRoutes_def chainA_def
      chainB_def chainC_def mkChain_def minus_Amount_def)

text \<open>
  C5 as amended. Whenever the engine rejects an action, whatever the values, the chains
  are exactly as before, the rest of the tick's actions run on these unchanged chains, and
  the same action replayed any number of times is rejected each time with the same outcome
  and leaves the chains unchanged. When the amount is not NaN and no chain's pool or gas cost
  is NaN, the reason printed is the first check of the specification's order (same chain,
  chain resolution, source solvency, destination liquidity, gas coverage) that fails, and
  none if all pass.
\<close>

theorem rejection_first_failing_check:
  "(rejectionOf (fst (execAction a cs)) \<noteq> None \<longrightarrow>
      snd (execAction a cs) = cs \<and>
      execActions (a # rest) cs =
        (fst (execAction a cs) # fst (execActions rest cs), snd (execActions rest cs)) \<and>
      (\<forall>k. execActions (replicate k a) cs = (replicate k (fst (execAction a cs)), cs))) \<and>
   (amount a \<noteq> NaN \<and>
    (\<forall>c \<in> set cs. currentOutflowBal c \<noteq> NaN \<and> currentOrderflowBal c \<noteq> NaN \<and>
                   gasCost (params c) \<noteq> NaN) \<longrightarrow>
      rejectionOf (fst (execAction a cs)) = firstFailure a cs)"
proof (intro conjI impI)
  assume "rejectionOf (fst (execAction a cs)) \<noteq> None"
  then have u: "snd (execAction a cs) = cs"
    by (rule execAction_rejected_unchanged)
  show "snd (execAction a cs) = cs" by (rule u)
  from u show "execActions (a # rest) cs =
        (fst (execAction a cs) # fst (execActions rest cs), snd (execActions rest cs))"
    by (subst execActions_Cons) simp
  from u show "\<forall>k. execActions (replicate k a) cs = (replicate k (fst (execAction a cs)), cs)"
    by (simp add: execActions_replicate_rejected)
next
  assume "amount a \<noteq> NaN \<and>
    (\<forall>c \<in> set cs. currentOutflowBal c \<noteq> NaN \<and> currentOrderflowBal c \<noteq> NaN \<and>
                   gasCost (params c) \<noteq> NaN)"
  then show "rejectionOf (fst (execAction a cs)) = firstFailure a cs"
    by (simp add: execAction_rejection)
qed

theorem rejection_first_failing_check_witness:
  "firstFailure \<lparr> type = bridge, source = ''A'', destination = ''B'', amount = Fin 11 \<rparr> initRoutes
     = Some InsufficientSourceFunds \<and>
   execActions (replicate 3 \<lparr> type = bridge, source = ''A'', destination = ''B'', amount = Fin 11 \<rparr>)
     initRoutes = (replicate 3 InsufficientFunds, initRoutes) \<and>
   execActions [\<lparr> type = bridge, source = ''A'', destination = ''B'', amount = Fin 11 \<rparr>,
                \<lparr> type = bridge, source = ''A'', destination = ''A'', amount = Fin 1 \<rparr>] initRoutes
     = ([InsufficientFunds, SameChain], initRoutes)"
proof -
  let ?a = "\<lparr> type = bridge, source = ''A'', destination = ''B'', amount = Fin 11 \<rparr>"
  let ?b = "\<lparr> type = bridge, source = ''A'', destination = ''A'', amount = Fin 1 \<rparr>"
  have f: "firstFailure ?a initRoutes = Some InsufficientSourceFunds"
    by (simp add: firstFailure_def resolveChain_def initRoutes_def chainA_def chainB_def
        chainC_def mkChain_def)
  have n: "amount ?a \<noteq> NaN \<and>
    (\<forall>c \<in> set initRoutes. currentOutflowBal c \<noteq> NaN \<and> currentOrderflowBal c \<noteq> NaN \<and>
                   gasCost (params c) \<noteq> NaN)"
    by (simp add: initRoutes_def chainA_def chainB_def chainC_def mkChain_def)
  have o: "fst (execAction ?a initRoutes) = InsufficientFunds"
    using rejection_first_failing_check [of ?a initRoutes "[]"] f n
    by (cases "fst (execAction ?a initRoutes)") simp_all
  have b: "execActions [?b] initRoutes = ([SameChain], initRoutes)"
    by (simp add: execAction_def)
  from rejection_first_failing_check [of ?a initRoutes "[?b]"] f o b
  show ?thesis
    by (simp del: execActions.simps)
qed

section \<open>Order within a tick\<close>

lemma execActions_append:
  "execActions (as1 @ as2) cs =
     (fst (execActions as1 cs) @ fst (execActions as2 (snd (execActions as1 cs))),
      snd (execActions as2 (snd (execActions as1 cs))))"
  by (induction as1 arbitrary: cs) (simp_all add: case_prod_beta)

text \<open>
  C7. Wherever an action stands in a tick's list, it is validated and applied on the chains
  as all the actions before it have left them, and the actions after it run on the chains as
  it has left them. The example after the theorem: of two bridges of 6 out of a balance of 10
  the first is accepted and the second, which alone would be accepted too, is rejected for
  insufficient funds.
\<close>

theorem actions_validated_in_sequence:
  "execActions (before @ a # after) cs =
     (let (outs1, cs1) = execActions before cs;
          (out, cs2) = execAction a cs1;
          (outs2, cs3) = execActions after cs2
      in (outs1 @ out # outs2, cs3))"
  by (simp add: execActions_append case_prod_beta)

theorem actions_validated_in_sequence_witness:
  "fst (execAction \<lparr> type = bridge, source = ''A'', destination = ''B'', amount = Fin 6 \<rparr> initRoutes)
     = Bridged ''A'' ''B'' (Fin 5.9999) 4 \<and>
   fst (execActions [\<lparr> type = bridge, source = ''A'', destination = ''B'', amount = Fin 6 \<rparr>,
                     \<lparr> type = bridge, source = ''A'', destination = ''B'', amount = Fin 6 \<rparr>] initRoutes)
     = [Bridged ''A'' ''B'' (Fin 5.9999) 4, InsufficientFunds]"
  using actions_validated_in_sequence
    [of "[\<lparr> type = bridge, source = ''A'', destination = ''B'', amount = Fin 6 \<rparr>]"
        "\<lparr> type = bridge, source = ''A'', destination = ''B'', amount = Fin 6 \<rparr>" "[]" initRoutes]
  by (simp add: initRoutes_def chainA_def chainB_def chainC_def mkChain_def execAction_def Let_def)

lemma ageLocked_spec:
  "ageLocked L bal =
     (filter (\<lambda>(b, t). t \<noteq> 0) (map (\<lambda>(b, t). (b, decrementTicks t)) L),
      bal + sum_list (map fst (filter (\<lambda>(b, t). t = 0) (map (\<lambda>(b, t). (b, decrementTicks t)) L))))"
proof (induction L arbitrary: bal)
  case Nil
  show ?case by simp
next
  case (Cons e L)
  obtain b t where e: "e = (b, t)" by (cases e)
  show ?case
    by (simp add: e Cons.IH Let_def decrementTicks_def word_greater_zero_iff add.assoc)
qed

lemma tickChain_phases: "tickChain c = ageAndRelease (regenerate c)"
  by (simp add: tickChain_def ageAndRelease_def regenerate_def Let_def ageLocked_spec)

lemma decrementTicks_zero: "decrementTicks t = 0 \<longleftrightarrow> t = 0 \<or> t = 1"
  by (simp add: decrementTicks_def)

lemma released_sum:
  "sum_list (map fst (filter (\<lambda>(b, t). t = 0) (map (\<lambda>(b, t). (b, decrementTicks t)) L))) =
   sum_list (map fst (filter (\<lambda>(b, t). t = 0 \<or> t = 1) L))"
  by (induction L) (auto simp: decrementTicks_zero)

text \<open>
  C6. A tick is: regeneration of every chain, then aging and release on every chain, then
  one call of the strategy on the result, then the action loop on that same result, with the
  strategy's state after its one call. In the chains the strategy is called on, each balance
  already holds the amounts of the entries released in this tick (those whose countdown was
  0 or 1), and the actions are validated against these balances.
\<close>

theorem tick_phase_order:
  "tick strategy (st, cs) =
     (case strategy st (map ageAndRelease (map regenerate cs)) of
        None \<Rightarrow> None
      | Some (actions, st') \<Rightarrow>
          Some (st', snd (execActions actions (map ageAndRelease (map regenerate cs))))) \<and>
   (\<forall>j < length cs.
      balance (map ageAndRelease (map regenerate cs) ! j) =
        balance (cs ! j) +
        sum_list (map fst (filter (\<lambda>(b, t). t = 0 \<or> t = 1) (lockedBalances (cs ! j)))))"
proof -
  have m: "map tickChain cs = map ageAndRelease (map regenerate cs)"
    by (simp add: tickChain_phases)
  have t: "tick strategy (st, cs) =
     (case strategy st (map ageAndRelease (map regenerate cs)) of
        None \<Rightarrow> None
      | Some (actions, st') \<Rightarrow>
          Some (st', snd (execActions actions (map ageAndRelease (map regenerate cs)))))"
    by (simp only: tick_def Let_def fst_conv snd_conv m)
  have b: "\<forall>j < length cs.
      balance (map ageAndRelease (map regenerate cs) ! j) =
        balance (cs ! j) +
        sum_list (map fst (filter (\<lambda>(b, t). t = 0 \<or> t = 1) (lockedBalances (cs ! j))))"
    by (simp add: ageAndRelease_def regenerate_def Let_def released_sum)
  from t b show ?thesis by (rule conjI)
qed

text \<open>
  An instance: chain B holds nothing but one entry of 6 with countdown 1. In the same tick the
  entry is released, the shipped strategy sees a balance above 5 on B and proposes the execute
  of 5 from B, and the engine accepts it: B ends the tick with a balance of 1.
\<close>

theorem tick_phase_order_witness:
  "balance (snd (the (tick Strategy ((), [chainA, chainB\<lparr> lockedBalances := [(Fin 6, 1)] \<rparr>, chainC]))) ! 1) = Fin 1 \<and>
   lockedBalances (snd (the (tick Strategy ((), [chainA, chainB\<lparr> lockedBalances := [(Fin 6, 1)] \<rparr>, chainC]))) ! 0)
     = [(Fin (4.9995 * 1.0003), 6)] \<and>
   lockedBalances (snd (the (tick Strategy ((), [chainA, chainB\<lparr> lockedBalances := [(Fin 6, 1)] \<rparr>, chainC]))) ! 1)
     = [(Fin 1.9999, 4)]"
  using tick_phase_order [of Strategy "()" "[chainA, chainB\<lparr> lockedBalances := [(Fin 6, 1)] \<rparr>, chainC]"]
  by (simp add: Strategy_def onTickRecalc_def getChain_def ageAndRelease_def regenerate_def
      decrementTicks_def chainA_def chainB_def chainC_def mkChain_def execAction_def Let_def)

section \<open>Configuration is constant\<close>











section \<open>Runs as lists of action lists\<close>

text \<open>
  A tick is \<open>tickWith\<close> on the actions the strategy answers, so every run of \<open>simulate\<close>
  is a run of \<open>runTicks\<close> on some list of action lists.
\<close>

lemma tick_tickWith:
  "tick strategy (st, cs) =
     map_option (\<lambda>(actions, st'). (st', tickWith actions cs)) (strategy st (map tickChain cs))"
  by (simp add: tick_def tickWith_def Let_def split: option.splits)

lemma simulate_runTicks:
  "simulate strategy k (st, cs) = Some (st', cs') \<Longrightarrow>
   \<exists>ass. length ass = k \<and> cs' = runTicks ass cs"
proof (induction k arbitrary: st cs)
  case 0
  then show ?case by simp
next
  case (Suc k)
  from Suc.prems obtain st1 cs1 where t: "tick strategy (st, cs) = Some (st1, cs1)"
    and s: "simulate strategy k (st1, cs1) = Some (st', cs')"
    by (auto split: option.splits)
  from t obtain actions where c: "cs1 = tickWith actions cs"
    by (auto simp: tick_tickWith)
  from Suc.IH [OF s] obtain ass where "length ass = k" "cs' = runTicks ass cs1" by blast
  with c have "length (actions # ass) = Suc k \<and> cs' = runTicks (actions # ass) cs" by simp
  then show ?case by blast
qed

lemma findChains_names_cong:
  "map chainName cs = map chainName cs' \<Longrightarrow> findChains a cs i acc = findChains a cs' i acc"
proof (induction cs arbitrary: cs' i acc)
  case Nil
  then show ?case by simp
next
  case (Cons c cs)
  then obtain c' cs'' where "cs' = c' # cs''" "chainName c = chainName c'"
    "map chainName cs = map chainName cs''" by (cases cs') auto
  with Cons.IH show ?case by (cases acc) simp
qed

section \<open>A run with and without one ledger entry\<close>

lemma withoutEntry_fields:
  assumes "withoutEntry j e cs cs0"
  shows "length cs0 = length cs"
    and "map chainName cs0 = map chainName cs"
    and "\<And>i. i < length cs \<Longrightarrow> balance (cs0 ! i) = balance (cs ! i)"
    and "\<And>i. i < length cs \<Longrightarrow> currentOutflowBal (cs0 ! i) = currentOutflowBal (cs ! i)"
    and "\<And>i. i < length cs \<Longrightarrow> currentOrderflowBal (cs0 ! i) = currentOrderflowBal (cs ! i)"
    and "\<And>i. i < length cs \<Longrightarrow> params (cs0 ! i) = params (cs ! i)"
  using assms
  by (auto simp: withoutEntry_def nth_list_update map_update list_update_same_conv)

lemma execAction_withoutEntry_outcome:
  assumes w: "withoutEntry j e cs cs0"
  shows "fst (execAction a cs0) = fst (execAction a cs)"
proof -
  note fl = withoutEntry_fields [OF w]
  have fc: "findChains a cs0 0 (None, None) = findChains a cs 0 (None, None)"
    by (rule findChains_names_cong [OF fl(2)])
  obtain p q where pq: "findChains a cs 0 (None, None) = (p, q)"
    by (cases "findChains a cs 0 (None, None)")
  show ?thesis
  proof (cases "\<exists>s d. p = Some s \<and> q = Some d")
    case False
    with pq fc show ?thesis
      by (cases p; cases q) (simp_all add: execAction_alt)
  next
    case True
    then obtain s d where sd: "p = Some s" "q = Some d" by blast
    note f = findChains_found [OF pq [unfolded sd]]
    from pq fc sd f(1,2) fl(3-6) [of s] fl(3-6) [of d] show ?thesis
      by (simp add: execAction_alt split: ActionType.splits)
  qed
qed

lemma withoutEntry_update_other:
  assumes "withoutEntry j e cs cs0" and "i < length cs" and "i \<noteq> j"
  shows "withoutEntry j e (cs[i := c]) (cs0[i := c])"
proof -
  from assms(1) obtain L R where j: "j < length cs" and l: "lockedBalances (cs ! j) = L @ e # R"
    and c0: "cs0 = cs[j := (cs ! j)\<lparr> lockedBalances := L @ R \<rparr>]"
    by (auto simp: withoutEntry_def)
  have "lockedBalances (cs[i := c] ! j) = L @ e # R"
    using assms(3) l by simp
  moreover have "cs0[i := c] = (cs[i := c])[j := (cs[i := c] ! j)\<lparr> lockedBalances := L @ R \<rparr>]"
    using assms(3) c0 by (simp add: list_update_swap [of i j])
  moreover have "j < length (cs[i := c])" using j by simp
  ultimately show ?thesis
    unfolding withoutEntry_def by blast
qed

lemma withoutEntry_update_same:
  assumes "withoutEntry j e cs cs0"
    and "lockedBalances c0 = lockedBalances (cs0 ! j) @ N"
    and "c = c0\<lparr> lockedBalances := lockedBalances (cs ! j) @ N \<rparr>"
  shows "withoutEntry j e (cs[j := c]) (cs0[j := c0])"
proof -
  from assms(1) obtain L R where j: "j < length cs" and l: "lockedBalances (cs ! j) = L @ e # R"
    and c0: "cs0 = cs[j := (cs ! j)\<lparr> lockedBalances := L @ R \<rparr>]"
    by (auto simp: withoutEntry_def)
  from j c0 assms(2) have l0: "lockedBalances c0 = L @ (R @ N)" by simp
  have "lockedBalances (cs[j := c] ! j) = L @ e # (R @ N)"
    using j l assms(3) by simp
  moreover have "c0\<lparr> lockedBalances := L @ (R @ N) \<rparr> = c0"
    by (simp add: l0 [symmetric])
  then have "cs0[j := c0] = (cs[j := c])[j := (cs[j := c] ! j)\<lparr> lockedBalances := L @ (R @ N) \<rparr>]"
    using j c0 assms(3) by simp
  moreover have "j < length (cs[j := c])" using j by simp
  ultimately show ?thesis
    unfolding withoutEntry_def by blast
qed

lemma withoutEntry_update:
  assumes w: "withoutEntry j e cs cs0"
    and i: "i < length cs"
    and c: "c = f (cs ! i)" and c0: "c0 = f (cs0 ! i)"
    and f1: "\<And>x. lockedBalances (f x) = lockedBalances x @ N"
    and f2: "\<And>x K. f (x\<lparr> lockedBalances := K \<rparr>) = (f x)\<lparr> lockedBalances := K @ N \<rparr>"
  shows "withoutEntry j e (cs[i := c]) (cs0[i := c0])"
proof (cases "i = j")
  case False
  with w have "cs0 ! i = cs ! i" by (auto simp: withoutEntry_def)
  with c c0 have "c0 = c" by simp
  with withoutEntry_update_other [OF w i False] show ?thesis by simp
next
  case True
  from w obtain L R where j: "j < length cs" and l: "lockedBalances (cs ! j) = L @ e # R"
    and cs0: "cs0 = cs[j := (cs ! j)\<lparr> lockedBalances := L @ R \<rparr>]"
    by (auto simp: withoutEntry_def)
  from j cs0 have n0: "cs0 ! j = (cs ! j)\<lparr> lockedBalances := L @ R \<rparr>" by simp
  have a: "lockedBalances c0 = lockedBalances (cs0 ! j) @ N"
    using c0 True by (simp add: f1)
  have "c0\<lparr> lockedBalances := lockedBalances (cs ! j) @ N \<rparr> =
        (f (cs ! j))\<lparr> lockedBalances := lockedBalances (cs ! j) @ N \<rparr>"
    using c0 True by (simp add: n0 f2)
  also have "\<dots> = f (cs ! j)"
    by (simp add: f1 [symmetric])
  finally have b: "c = c0\<lparr> lockedBalances := lockedBalances (cs ! j) @ N \<rparr>"
    using c True by simp
  from withoutEntry_update_same [OF w a b] True show ?thesis by simp
qed

lemma execAction_withoutEntry:
  assumes w: "withoutEntry j e cs cs0"
  shows "withoutEntry j e (snd (execAction a cs)) (snd (execAction a cs0))"
proof -
  note fl = withoutEntry_fields [OF w]
  have fc: "findChains a cs0 0 (None, None) = findChains a cs 0 (None, None)"
    by (rule findChains_names_cong [OF fl(2)])
  obtain p q where pq: "findChains a cs 0 (None, None) = (p, q)"
    by (cases "findChains a cs 0 (None, None)")
  show ?thesis
  proof (cases "\<exists>s d. p = Some s \<and> q = Some d")
    case False
    with pq fc w show ?thesis
      by (cases p; cases q) (simp_all add: execAction_alt)
  next
    case True
    then obtain s d where sd: "p = Some s" "q = Some d" by blast
    note f = findChains_found [OF pq [unfolded sd]]
    note es = fl(3-6) [OF f(1)] and ed = fl(3-6) [OF f(2)]
    let ?gas = "gasCost (params (cs ! s))"
    show ?thesis
    proof (cases "type a")
      case bridge
      let ?fd = "\<lambda>x. x\<lparr> currentOutflowBal := currentOutflowBal (cs ! d) - amount a,
                          lockedBalances := lockedBalances x @
                            [(amount a - ?gas, bridgingTime (params (cs ! s)))] \<rparr>"
      let ?fs = "\<lambda>x. x\<lparr> currentOutflowBal := currentOutflowBal (cs ! s) + amount a,
                          balance := balance (cs ! s) - amount a \<rparr>"
      have w1: "withoutEntry j e (cs[d := ?fd (cs ! d)]) (cs0[d := ?fd (cs0 ! d)])"
        by (rule withoutEntry_update [OF w f(2), where f = ?fd]) simp_all
      have "withoutEntry j e (cs[d := ?fd (cs ! d), s := ?fs (cs ! s)])
              (cs0[d := ?fd (cs0 ! d), s := ?fs (cs0 ! s)])"
        by (rule withoutEntry_update [OF w1, where f = ?fs and N = "[]"])
           (use f in simp_all)
      with pq fc sd bridge es ed w show ?thesis
        by (simp add: execAction_alt)
    next
      case execute
      let ?fd = "\<lambda>x. x\<lparr> currentOrderflowBal := currentOrderflowBal (cs ! d) - amount a,
                          lockedBalances := lockedBalances x @
                            [((amount a - ?gas) * executionSurplus (params (cs ! s)),
                              inventoryLockTime (params (cs ! s)))] \<rparr>"
      let ?fs = "\<lambda>x. x\<lparr> balance := balance (cs ! s) - amount a \<rparr>"
      have w1: "withoutEntry j e (cs[d := ?fd (cs ! d)]) (cs0[d := ?fd (cs0 ! d)])"
        by (rule withoutEntry_update [OF w f(2), where f = ?fd]) simp_all
      have "withoutEntry j e (cs[d := ?fd (cs ! d), s := ?fs (cs ! s)])
              (cs0[d := ?fd (cs0 ! d), s := ?fs (cs0 ! s)])"
        by (rule withoutEntry_update [OF w1, where f = ?fs and N = "[]"])
           (use f in simp_all)
      with pq fc sd execute es ed w show ?thesis
        by (simp add: execAction_alt)
    qed
  qed
qed

lemma execActions_withoutEntry:
  "withoutEntry j e cs cs0 \<Longrightarrow>
   fst (execActions as cs0) = fst (execActions as cs) \<and>
   withoutEntry j e (snd (execActions as cs)) (snd (execActions as cs0))"
proof (induction as arbitrary: cs cs0)
  case Nil
  then show ?case by simp
next
  case (Cons a as)
  from Cons.IH [OF execAction_withoutEntry [OF Cons.prems, of a]]
    execAction_withoutEntry_outcome [OF Cons.prems, of a]
  show ?case
    by (simp add: case_prod_beta)
qed

lemma decrementTicks_nonzero: "decrementTicks n \<noteq> 0 \<longleftrightarrow> 1 < unat n"
proof -
  have "unat n = 1 \<longleftrightarrow> n = 1"
    using word_unat_eq_iff [of n 1] by simp
  moreover have "unat n = 0 \<longleftrightarrow> n = 0" by (rule unat_0_iff)
  ultimately have "1 < unat n \<longleftrightarrow> n \<noteq> 0 \<and> n \<noteq> 1" by arith
  then show ?thesis by (simp add: decrementTicks_zero)
qed

lemma decrementTicks_pred: "1 < unat n \<Longrightarrow> decrementTicks n = n - 1"
  by (auto simp: decrementTicks_def)

lemma unat_pred: "1 < unat (n :: Ticks) \<Longrightarrow> unat (n - 1) = unat n - 1"
  by (rule unat_minus_one) auto

lemma last_countdown:
  "Suc k = max (unat (n :: Ticks)) 1 \<Longrightarrow> decrementTicks (n - of_nat k) = 0"
proof (cases "n = 0")
  case True
  assume "Suc k = max (unat n) 1"
  with True have "k = 0" by simp
  with True show ?thesis by (simp add: decrementTicks_def)
next
  case False
  assume "Suc k = max (unat n) 1"
  moreover from False have pos: "1 \<le> unat n"
    using unat_gt_0 [of n] by simp
  ultimately have k: "k = unat n - 1" by simp
  have "of_nat k = n - 1"
    using pos by (simp add: k of_nat_diff)
  then have "n - of_nat k = 1" by simp
  then show ?thesis by (simp add: decrementTicks_def)
qed

lemma tickChain_ledger:
  "tickChain (c\<lparr> lockedBalances := K \<rparr>) =
     (tickChain c)\<lparr> balance := balance c +
          sum_list (map fst (filter (\<lambda>(b, t). t = 0) (map (\<lambda>(b, t). (b, decrementTicks t)) K))),
        lockedBalances := filter (\<lambda>(b, t). t \<noteq> 0) (map (\<lambda>(b, t). (b, decrementTicks t)) K) \<rparr>"
  by (simp add: tickChain_phases ageAndRelease_def regenerate_def Let_def)

lemma tickChain_ledger_self:
  "lockedBalances (tickChain c) =
     filter (\<lambda>(b, t). t \<noteq> 0) (map (\<lambda>(b, t). (b, decrementTicks t)) (lockedBalances c))"
  "balance (tickChain c) = balance c +
     sum_list (map fst (filter (\<lambda>(b, t). t = 0) (map (\<lambda>(b, t). (b, decrementTicks t)) (lockedBalances c))))"
  by (simp_all add: tickChain_phases ageAndRelease_def regenerate_def Let_def)

lemma tick_withoutEntry_keep:
  assumes w: "withoutEntry j (x, n) cs cs0" and n: "1 < unat n"
  shows "withoutEntry j (x, n - 1) (map tickChain cs) (map tickChain cs0)"
proof -
  from w obtain L R where j: "j < length cs" and l: "lockedBalances (cs ! j) = L @ (x, n) # R"
    and cs0: "cs0 = cs[j := (cs ! j)\<lparr> lockedBalances := L @ R \<rparr>]"
    by (auto simp: withoutEntry_def)
  let ?k = "\<lambda>K. filter (\<lambda>(b, t). t \<noteq> 0) (map (\<lambda>(b, t). (b, decrementTicks t)) K)"
  from n have d: "decrementTicks n = n - 1" "n - 1 \<noteq> 0"
    using decrementTicks_nonzero [of n] by (simp_all add: decrementTicks_pred)
  let ?r = "\<lambda>K. sum_list (map fst (filter (\<lambda>(b, t). t = 0) (map (\<lambda>(b, t). (b, decrementTicks t)) K)))"
  have a: "lockedBalances (map tickChain cs ! j) = ?k L @ (x, n - 1) # ?k R"
    using j l d by (simp add: tickChain_ledger_self)
  have b: "balance (tickChain (cs ! j)) = balance (cs ! j) + ?r (L @ R)"
    using l d by (simp add: tickChain_ledger_self)
  have "tickChain ((cs ! j)\<lparr> lockedBalances := L @ R \<rparr>) =
        (tickChain (cs ! j))\<lparr> balance := balance (tickChain (cs ! j)), lockedBalances := ?k (L @ R) \<rparr>"
    unfolding b by (rule tickChain_ledger)
  then have "tickChain ((cs ! j)\<lparr> lockedBalances := L @ R \<rparr>) =
        (tickChain (cs ! j))\<lparr> lockedBalances := ?k L @ ?k R \<rparr>"
    by simp
  then have "map tickChain cs0 =
        (map tickChain cs)[j := (map tickChain cs ! j)\<lparr> lockedBalances := ?k L @ ?k R \<rparr>]"
    using j by (simp add: cs0 map_update)
  with a j show ?thesis
    unfolding withoutEntry_def by (metis length_map)
qed

lemma tick_withoutEntry_release:
  assumes w: "withoutEntry j (x, n) cs cs0" and n: "decrementTicks n = 0"
  shows "map tickChain cs =
     (map tickChain cs0)[j := (tickChain (cs0 ! j))\<lparr> balance := balance (tickChain (cs0 ! j)) + x \<rparr>]"
proof -
  from w obtain L R where j: "j < length cs" and l: "lockedBalances (cs ! j) = L @ (x, n) # R"
    and cs0: "cs0 = cs[j := (cs ! j)\<lparr> lockedBalances := L @ R \<rparr>]"
    by (auto simp: withoutEntry_def)
  have "tickChain (cs ! j) = tickChain ((cs ! j)\<lparr> lockedBalances := lockedBalances (cs ! j) \<rparr>)"
    by simp
  also have "\<dots> = (tickChain ((cs ! j)\<lparr> lockedBalances := L @ R \<rparr>))
       \<lparr> balance := balance (tickChain ((cs ! j)\<lparr> lockedBalances := L @ R \<rparr>)) + x \<rparr>"
    unfolding tickChain_ledger [where c = "cs ! j"] l using n by (simp add: ac_simps)
  finally have e: "tickChain (cs ! j) = (tickChain ((cs ! j)\<lparr> lockedBalances := L @ R \<rparr>))
       \<lparr> balance := balance (tickChain ((cs ! j)\<lparr> lockedBalances := L @ R \<rparr>)) + x \<rparr>" .
  have "(map tickChain cs0)[j := (tickChain (cs0 ! j))\<lparr> balance := balance (tickChain (cs0 ! j)) + x \<rparr>]
        = (map tickChain cs)[j := tickChain (cs ! j)]"
    using j by (simp add: cs0 map_update e [symmetric])
  also have "\<dots> = map tickChain cs"
    using j by (simp add: list_update_same_conv)
  finally show ?thesis by simp
qed

lemma tickWith_withoutEntry:
  assumes "withoutEntry j (x, n) cs cs0" and "1 < unat n"
  shows "withoutEntry j (x, n - 1) (tickWith actions cs) (tickWith actions cs0)"
  unfolding tickWith_def
  using execActions_withoutEntry [OF tick_withoutEntry_keep [OF assms], of actions]
  by simp

lemma runTicks_withoutEntry:
  "withoutEntry j (x, n) cs cs0 \<Longrightarrow> length ass < max (unat n) 1 \<Longrightarrow>
   withoutEntry j (x, n - of_nat (length ass)) (runTicks ass cs) (runTicks ass cs0)"
proof (induction ass arbitrary: n cs cs0)
  case Nil
  then show ?case by simp
next
  case (Cons actions ass)
  from Cons.prems(2) have n: "1 < unat n" by simp
  then have l: "length ass < max (unat (n - 1)) 1"
    using Cons.prems(2) by (simp add: unat_pred)
  from Cons.IH [OF tickWith_withoutEntry [OF Cons.prems(1) n] l, of actions]
  show ?case by (simp add: diff_diff_eq add.commute)
qed

lemma runTicks_release:
  assumes "withoutEntry j (x, n) cs cs0" and "Suc (length ass) = max (unat n) 1"
  shows "map tickChain (runTicks ass cs) =
     (map tickChain (runTicks ass cs0))
       [j := (tickChain (runTicks ass cs0 ! j))
          \<lparr> balance := balance (tickChain (runTicks ass cs0 ! j)) + x \<rparr>]"
proof -
  from assms(2) have "length ass < max (unat n) 1" by simp
  from runTicks_withoutEntry [OF assms(1) this] last_countdown [OF assms(2)]
  show ?thesis by (rule tick_withoutEntry_release)
qed

lemma withoutEntry_intro:
  "j < length cs \<Longrightarrow> lockedBalances (cs ! j) = L @ e # R \<Longrightarrow>
   withoutEntry j e cs (cs[j := (cs ! j)\<lparr> lockedBalances := L @ R \<rparr>])"
  unfolding withoutEntry_def by blast

section \<open>Release of locked amounts\<close>

text \<open>
  C3, for a countdown of at least one. Let \<open>cs\<close> be the chains right after an accepted
  action has put the entry \<open>(x, n)\<close>, \<open>n \<ge> 1\<close>, on chain \<open>j\<close>'s ledger in tick \<open>t\<close>
  (\<open>L\<close> are the entries before it, \<open>R\<close> those after it), \<open>rest\<close> the remaining actions of
  tick \<open>t\<close> and \<open>ass\<close> the action lists of the \<open>k\<close> ticks that follow, whatever they are.
  For every \<open>k < n\<close>: after tick \<open>t + k\<close> the entry is still on the ledger, its countdown is
  \<open>n - k\<close>, and the chains are otherwise exactly those of the same run started without the
  entry, so nothing has been credited for it. When \<open>k + 1 = n\<close>, the first loop of tick
  \<open>t + n\<close> gives exactly the chains of the run without the entry with \<open>x\<close> added once to
  chain \<open>j\<close>'s balance: the entry is off the ledger and credited once.
\<close>

theorem settlement_released_once_after_countdown:
  fixes rest :: Actions
  assumes "j < length cs" and "lockedBalances (cs ! j) = L @ (x, n) # R"
    and "0 < n" and "length ass < unat n"
  defines "cs0 \<equiv> cs[j := (cs ! j)\<lparr> lockedBalances := L @ R \<rparr>]"
  defines "run \<equiv> runTicks ass (snd (execActions rest cs))"
  defines "run0 \<equiv> runTicks ass (snd (execActions rest cs0))"
  shows "withoutEntry j (x, n - of_nat (length ass)) run run0 \<and>
         (Suc (length ass) = unat n \<longrightarrow>
            map tickChain run =
            (map tickChain run0)
              [j := (tickChain (run0 ! j))\<lparr> balance := balance (tickChain (run0 ! j)) + x \<rparr>])"
proof -
  have w: "withoutEntry j (x, n) (snd (execActions rest cs)) (snd (execActions rest cs0))"
    unfolding cs0_def
    using execActions_withoutEntry [OF withoutEntry_intro [OF assms(1,2)], of rest] by simp
  from assms(3) have "0 < unat n" by (simp add: unat_gt_0)
  with assms(4) have m: "max (unat n) 1 = unat n" "length ass < max (unat n) 1" by simp_all
  from runTicks_withoutEntry [OF w m(2)] runTicks_release [OF w, of ass] m(1)
  show ?thesis unfolding run_def run0_def by simp
qed

theorem settlement_released_once_after_countdown_witness:
  "lockedBalances (runTicks [[]] [chainA, chainB\<lparr> lockedBalances := [(Fin 1.9999, 2)] \<rparr>, chainC] ! 1)
     = [(Fin 1.9999, 1)] \<and>
   balance (runTicks [[]] [chainA, chainB\<lparr> lockedBalances := [(Fin 1.9999, 2)] \<rparr>, chainC] ! 1) = Fin 0 \<and>
   map tickChain (runTicks [[]] [chainA, chainB\<lparr> lockedBalances := [(Fin 1.9999, 2)] \<rparr>, chainC]) =
     (map tickChain (runTicks [[]] [chainA, chainB, chainC]))
       [1 := (tickChain (runTicks [[]] [chainA, chainB, chainC] ! 1))\<lparr> balance := Fin 1.9999 \<rparr>]"
  using settlement_released_once_after_countdown
    [where j = 1 and cs = "[chainA, chainB\<lparr> lockedBalances := [(Fin 1.9999, 2)] \<rparr>, chainC]"
       and L = "[]" and x = "Fin 1.9999" and n = 2 and R = "[]" and ass = "[[]]" and rest = "[]"]
  by (simp add: chainB_def mkChain_def tickWith_def tickChain_ledger_self decrementTicks_def)

text \<open>
  C3 fails as stated for a countdown of 0. Chain A is given a bridging time of 0 and bridges
  2 to B in some tick: at the end of that tick the entry (1.9999, 0) is on B's ledger and B's
  balance is still 0; the amount is credited in the next tick.
\<close>

theorem release_at_enqueue_tick_counterexample:
  "lockedBalances (tickWith [\<lparr> type = bridge, source = ''A'', destination = ''B'', amount = Fin 2 \<rparr>]
      [chainA\<lparr> params := (params chainA)\<lparr> bridgingTime := 0 \<rparr> \<rparr>, chainB, chainC] ! 1) = [(Fin 1.9999, 0)] \<and>
   balance (tickWith [\<lparr> type = bridge, source = ''A'', destination = ''B'', amount = Fin 2 \<rparr>]
      [chainA\<lparr> params := (params chainA)\<lparr> bridgingTime := 0 \<rparr> \<rparr>, chainB, chainC] ! 1) = Fin 0 \<and>
   lockedBalances (tickWith [] (tickWith [\<lparr> type = bridge, source = ''A'', destination = ''B'', amount = Fin 2 \<rparr>]
      [chainA\<lparr> params := (params chainA)\<lparr> bridgingTime := 0 \<rparr> \<rparr>, chainB, chainC]) ! 1) = [] \<and>
   balance (tickWith [] (tickWith [\<lparr> type = bridge, source = ''A'', destination = ''B'', amount = Fin 2 \<rparr>]
      [chainA\<lparr> params := (params chainA)\<lparr> bridgingTime := 0 \<rparr> \<rparr>, chainB, chainC]) ! 1) = Fin 1.9999"
proof -
  let ?a = "\<lparr> type = bridge, source = ''A'', destination = ''B'', amount = Fin 2 \<rparr>"
  let ?cs00 = "[chainA\<lparr> params := (params chainA)\<lparr> bridgingTime := 0 \<rparr> \<rparr>, chainB, chainC]"
  have e: "tickWith [?a] ?cs00 ! 1 =
       chainB\<lparr> currentOrderflowBal := Fin 30.38, currentOutflowBal := Fin 8.4, lockedBalances := [(Fin 1.9999, 0)] \<rparr>"
    by (simp add: tickWith_def tickChain_def execAction_alt chainA_def chainB_def chainC_def mkChain_def)
  have l: "length (tickWith [?a] ?cs00) = 3"
    by (simp add: tickWith_def tickChain_def execAction_alt chainA_def chainB_def chainC_def mkChain_def)
  have t: "tickWith [] (tickWith [?a] ?cs00) ! 1 = tickChain (tickWith [?a] ?cs00 ! 1)"
    using l by (simp add: tickWith_def)
  show ?thesis
    unfolding t e by (simp add: chainB_def mkChain_def tickChain_ledger_self decrementTicks_def)
qed

text \<open>
  C10. The same for any countdown, with \<open>max n 1\<close> in the place of \<open>n\<close>: an entry enqueued
  in tick \<open>t\<close> is on the ledger and uncredited at the end of tick \<open>t\<close> and of every tick
  before \<open>t + max n 1\<close>, also when \<open>n = 0\<close>, and the first loop of tick \<open>t + max n 1\<close>
  removes it and credits it once. The aging pass does not tell a countdown of 0 from a
  countdown of 1.
\<close>

theorem settlement_released_after_max_countdown_1:
  fixes rest :: Actions
  assumes "j < length cs" and "lockedBalances (cs ! j) = L @ (x, n) # R"
    and "length ass < max (unat n) 1"
  defines "cs0 \<equiv> cs[j := (cs ! j)\<lparr> lockedBalances := L @ R \<rparr>]"
  defines "run \<equiv> runTicks ass (snd (execActions rest cs))"
  defines "run0 \<equiv> runTicks ass (snd (execActions rest cs0))"
  shows "withoutEntry j (x, n - of_nat (length ass)) run run0 \<and>
         (Suc (length ass) = max (unat n) 1 \<longrightarrow>
            map tickChain run =
            (map tickChain run0)
              [j := (tickChain (run0 ! j))\<lparr> balance := balance (tickChain (run0 ! j)) + x \<rparr>]) \<and>
         tickChain (c\<lparr> lockedBalances := L @ (x, 0) # R \<rparr>) =
           tickChain (c\<lparr> lockedBalances := L @ (x, 1) # R \<rparr>)"
proof -
  have w: "withoutEntry j (x, n) (snd (execActions rest cs)) (snd (execActions rest cs0))"
    unfolding cs0_def
    using execActions_withoutEntry [OF withoutEntry_intro [OF assms(1,2)], of rest] by simp
  have z: "tickChain (c\<lparr> lockedBalances := L @ (x, 0) # R \<rparr>) =
           tickChain (c\<lparr> lockedBalances := L @ (x, 1) # R \<rparr>)"
    by (simp add: tickChain_ledger decrementTicks_def)
  from runTicks_withoutEntry [OF w assms(3)] runTicks_release [OF w, of ass] z
  show ?thesis unfolding run_def run0_def by simp
qed

theorem settlement_released_after_max_countdown_1_witness:
  "lockedBalances (snd (execAction \<lparr> type = bridge, source = ''A'', destination = ''B'', amount = Fin 2 \<rparr>
      [chainA\<lparr> params := (params chainA)\<lparr> bridgingTime := 0 \<rparr> \<rparr>, chainB, chainC]) ! 1) = [(Fin 1.9999, 0)] \<and>
   balance (snd (execAction \<lparr> type = bridge, source = ''A'', destination = ''B'', amount = Fin 2 \<rparr>
      [chainA\<lparr> params := (params chainA)\<lparr> bridgingTime := 0 \<rparr> \<rparr>, chainB, chainC]) ! 1) = Fin 0 \<and>
   balance (map tickChain (snd (execAction \<lparr> type = bridge, source = ''A'', destination = ''B'', amount = Fin 2 \<rparr>
      [chainA\<lparr> params := (params chainA)\<lparr> bridgingTime := 0 \<rparr> \<rparr>, chainB, chainC])) ! 1) = Fin 1.9999 \<and>
   lockedBalances (map tickChain (snd (execAction \<lparr> type = bridge, source = ''A'', destination = ''B'', amount = Fin 2 \<rparr>
      [chainA\<lparr> params := (params chainA)\<lparr> bridgingTime := 0 \<rparr> \<rparr>, chainB, chainC])) ! 1) = []"
proof -
  let ?a = "\<lparr> type = bridge, source = ''A'', destination = ''B'', amount = Fin 2 \<rparr>"
  let ?cs00 = "[chainA\<lparr> params := (params chainA)\<lparr> bridgingTime := 0 \<rparr> \<rparr>, chainB, chainC]"
  have e: "snd (execAction ?a ?cs00) =
      [chainA\<lparr> params := (params chainA)\<lparr> bridgingTime := 0 \<rparr>, currentOutflowBal := Fin 32, balance := Fin 8 \<rparr>,
       chainB\<lparr> currentOutflowBal := Fin 8, lockedBalances := [(Fin 1.9999, 0)] \<rparr>, chainC]"
    by (simp add: execAction_alt chainA_def chainB_def chainC_def mkChain_def)
  from settlement_released_after_max_countdown_1
    [where j = 1 and cs = "snd (execAction ?a ?cs00)" and L = "[]" and x = "Fin 1.9999" and n = 0
       and R = "[]" and ass = "[]" and rest = "[]"]
  show ?thesis
    unfolding e
    by (simp add: chainB_def mkChain_def tickChain_ledger_self decrementTicks_def)
qed

text \<open>
  C8. The source has a balance of 10, a gas cost of 0.0001 and a bridging time of 4, the
  destination an outflow pool of 30; the bridge of 2 is accepted, the source's balance is 8
  and the destination's ledger has the new last entry (1.9999, 4). After three further ticks,
  whatever their actions, the first loop of the fourth gives the chains of the same run
  without that entry with 1.9999 added to the destination's balance, the entry gone. If the
  destination's ledger was empty and the four further ticks have no actions, its balance
  after them is its balance before plus 1.9999 and its ledger is empty.
\<close>

theorem simple_bridge_scenario:
  fixes rest :: Actions
  assumes "type a = bridge" and "source a \<noteq> destination a" and "amount a = Fin 2"
    and "findChains a cs 0 (None, None) = (Some s, Some d)"
    and "balance (cs ! s) = Fin 10" and "gasCost (params (cs ! s)) = Fin 0.0001"
    and "bridgingTime (params (cs ! s)) = 4" and "currentOutflowBal (cs ! d) = Fin 30"
    and "length ass = 3"
  defines "cs' \<equiv> snd (execAction a cs)"
  defines "cs0 \<equiv> cs'[d := (cs' ! d)\<lparr> lockedBalances := lockedBalances (cs ! d) \<rparr>]"
  defines "run \<equiv> runTicks ass (snd (execActions rest cs'))"
  defines "run0 \<equiv> runTicks ass (snd (execActions rest cs0))"
  shows "fst (execAction a cs) = Bridged (source a) (destination a) (Fin 1.9999) 4 \<and>
     balance (cs' ! s) = Fin 8 \<and>
     lockedBalances (cs' ! d) = lockedBalances (cs ! d) @ [(Fin 1.9999, 4)] \<and>
     map tickChain run =
       (map tickChain run0)
         [d := (tickChain (run0 ! d))\<lparr> balance := balance (tickChain (run0 ! d)) + Fin 1.9999 \<rparr>] \<and>
     (lockedBalances (cs ! d) = [] \<longrightarrow>
        balance (runTicks [[], [], [], []] cs' ! d) = balance (cs ! d) + Fin 1.9999 \<and>
        lockedBalances (runTicks [[], [], [], []] cs' ! d) = [])"
proof -
  note f = findChains_found [OF assms(4)]
  have e: "execAction a cs =
    (Bridged (source a) (destination a) (Fin 1.9999) 4,
     cs[d := (cs ! d)\<lparr> currentOutflowBal := Fin 28,
                       lockedBalances := lockedBalances (cs ! d) @ [(Fin 1.9999, 4)] \<rparr>,
        s := (cs ! s)\<lparr> currentOutflowBal := currentOutflowBal (cs ! s) + Fin 2, balance := Fin 8 \<rparr>])"
    by (simp add: execAction_alt assms(1-9))
  have l: "length cs' = length cs" by (simp add: cs'_def e)
  have p1: "fst (execAction a cs) = Bridged (source a) (destination a) (Fin 1.9999) 4"
    by (simp add: e)
  have p2: "balance (cs' ! s) = Fin 8"
    using f by (simp add: cs'_def e)
  have p3: "lockedBalances (cs' ! d) = lockedBalances (cs ! d) @ [(Fin 1.9999, 4)]"
    using f by (simp add: cs'_def e)
  have w: "withoutEntry d (Fin 1.9999, 4) cs'
             (cs'[d := (cs' ! d)\<lparr> lockedBalances := lockedBalances (cs ! d) @ [] \<rparr>])"
    by (rule withoutEntry_intro) (use f l p3 in simp_all)
  have w': "withoutEntry d (Fin 1.9999, 4) (snd (execActions rest cs')) (snd (execActions rest cs0))"
    unfolding cs0_def using execActions_withoutEntry [OF w, of rest] by simp
  have m: "Suc (length ass) = max (unat (4 :: Ticks)) 1"
    using assms(9) by simp
  have p4: "map tickChain run =
       (map tickChain run0)
         [d := (tickChain (run0 ! d))\<lparr> balance := balance (tickChain (run0 ! d)) + Fin 1.9999 \<rparr>]"
    unfolding run_def run0_def by (rule runTicks_release [OF w' m])
  have p5: "lockedBalances (cs ! d) = [] \<longrightarrow>
        balance (runTicks [[], [], [], []] cs' ! d) = balance (cs ! d) + Fin 1.9999 \<and>
        lockedBalances (runTicks [[], [], [], []] cs' ! d) = []"
    using f by (simp add: cs'_def e tickWith_def tickChain_ledger_self decrementTicks_def)
  from p1 p2 p3 p4 p5 show ?thesis by blast
qed

theorem simple_bridge_scenario_witness:
  "fst (execAction \<lparr> type = bridge, source = ''A'', destination = ''B'', amount = Fin 2 \<rparr>
     [chainA, chainB\<lparr> currentOutflowBal := Fin 30 \<rparr>]) = Bridged ''A'' ''B'' (Fin 1.9999) 4 \<and>
   balance (snd (execAction \<lparr> type = bridge, source = ''A'', destination = ''B'', amount = Fin 2 \<rparr>
     [chainA, chainB\<lparr> currentOutflowBal := Fin 30 \<rparr>]) ! 0) = Fin 8 \<and>
   lockedBalances (snd (execAction \<lparr> type = bridge, source = ''A'', destination = ''B'', amount = Fin 2 \<rparr>
     [chainA, chainB\<lparr> currentOutflowBal := Fin 30 \<rparr>]) ! 1) = [(Fin 1.9999, 4)] \<and>
   balance (runTicks [[], [], [], []]
     (snd (execAction \<lparr> type = bridge, source = ''A'', destination = ''B'', amount = Fin 2 \<rparr>
       [chainA, chainB\<lparr> currentOutflowBal := Fin 30 \<rparr>])) ! 1) = Fin 1.9999 \<and>
   lockedBalances (runTicks [[], [], [], []]
     (snd (execAction \<lparr> type = bridge, source = ''A'', destination = ''B'', amount = Fin 2 \<rparr>
       [chainA, chainB\<lparr> currentOutflowBal := Fin 30 \<rparr>])) ! 1) = []"
  using simple_bridge_scenario
    [where a = "\<lparr> type = bridge, source = ''A'', destination = ''B'', amount = Fin 2 \<rparr>"
       and cs = "[chainA, chainB\<lparr> currentOutflowBal := Fin 30 \<rparr>]" and s = 0 and d = 1
       and ass = "[[], [], []]" and rest = "[]"]
  by (simp add: chainA_def chainB_def mkChain_def)

section \<open>Finite pools stay finite\<close>
















section \<open>Pool maxima\<close>





section \<open>A bridge's overshoot\<close>





end
